theory Spec2Isabelle
  imports Complex_Main "HOL-Library.Log_Nat"
begin

section \<open>Python values used by \<^verbatim>\<open>pygame_player.py\<close>\<close>

subsection \<open>Exceptions\<close>

text \<open>
  Every \<^verbatim>\<open>raise\<close> of the module and every exception of the Python operations it uses
  is a value of \<open>error\<close>. An operation that changes the session returns its outcome
  together with the state it leaves behind, so that a raise after a partial update is
  visible.
\<close>

datatype error =
    Exception string
  | NotImplementedError string
  | ZeroDivisionError
  | OverflowError
  | ValueError
  | TypeError

subsection \<open>Floats\<close>

text \<open>
  A Python \<^verbatim>\<open>float\<close> is an IEEE 754 binary64 number. A finite one is modelled by the
  rational it denotes, and every arithmetic operation rounds its exact result to the
  nearest binary64 value, ties to even, with gradual underflow below \<open>2\<^sup>-\<^sup>1\<^sup>0\<^sup>2\<^sup>2\<close> and
  overflow to infinity from \<open>2\<^sup>1\<^sup>0\<^sup>2\<^sup>4\<close>. The two zeros are not distinguished: no
  operation used here (\<^verbatim>\<open>+\<close>, \<^verbatim>\<open>/\<close>, \<^verbatim>\<open>int\<close>) tells them apart, since Python raises
  on a division by either zero.
\<close>

datatype pyfloat = Fin rat | PInf | NInf | NaN

definition pow2 :: "int \<Rightarrow> rat" where
  "pow2 e = (if 0 \<le> e then 2 ^ nat e else 1 / 2 ^ nat (- e))"

definition flog2 :: "rat \<Rightarrow> int" where
  \<comment> \<open>\<open>\<lfloor>log\<^sub>2 x\<rfloor>\<close> for \<open>0 < x\<close>, from the bit lengths of numerator and denominator\<close>
  "flog2 x = (case quotient_of x of (p, q) \<Rightarrow>
     let d = bitlen p - bitlen q
     in if pow2 d \<le> x then d else d - 1)"

definition round_half_even :: "rat \<Rightarrow> int" where
  "round_half_even x = (let f = \<lfloor>x\<rfloor>; d = x - of_int f
     in if d < 1 / 2 then f
        else if 1 / 2 < d then f + 1
        else if even f then f else f + 1)"

definition round_double :: "rat \<Rightarrow> pyfloat" where
  \<comment> \<open>53 significant bits, least exponent \<open>-1074\<close>, infinity from \<open>2\<^sup>1\<^sup>0\<^sup>2\<^sup>4\<close>\<close>
  "round_double x = (if x = 0 then Fin 0 else
     let a = \<bar>x\<bar>;
         e = max (flog2 a - 52) (- 1074);
         y = of_int (round_half_even (a / pow2 e)) * pow2 e
     in if pow2 1024 \<le> y then (if 0 < x then PInf else NInf)
        else Fin (sgn x * y))"

fun float_add :: "pyfloat \<Rightarrow> pyfloat \<Rightarrow> pyfloat" where
  "float_add (Fin a) (Fin b) = round_double (a + b)"
| "float_add NaN _ = NaN"
| "float_add _ NaN = NaN"
| "float_add PInf NInf = NaN"
| "float_add NInf PInf = NaN"
| "float_add PInf _ = PInf"
| "float_add _ PInf = PInf"
| "float_add NInf _ = NInf"
| "float_add _ NInf = NInf"

fun float_neg :: "pyfloat \<Rightarrow> pyfloat" where
  "float_neg (Fin a) = Fin (- a)"
| "float_neg PInf = NInf"
| "float_neg NInf = PInf"
| "float_neg NaN = NaN"

fun float_div :: "pyfloat \<Rightarrow> pyfloat \<Rightarrow> error + pyfloat" where
  \<comment> \<open>\<^verbatim>\<open>a / b\<close> on floats: Python raises on a zero divisor, IEEE 754 otherwise\<close>
  "float_div a (Fin b) =
     (if b = 0 then Inl ZeroDivisionError
      else case a of
          Fin x \<Rightarrow> Inr (round_double (x / b))
        | NaN \<Rightarrow> Inr NaN
        | infty \<Rightarrow> Inr (if 0 < b then infty else float_neg infty))"
| "float_div NaN _ = Inr NaN"
| "float_div _ NaN = Inr NaN"
| "float_div (Fin x) _ = Inr (Fin 0)"
| "float_div _ _ = Inr NaN"

fun float_to_int :: "pyfloat \<Rightarrow> error + int" where
  \<comment> \<open>\<^verbatim>\<open>int(x)\<close>: truncation towards zero\<close>
  "float_to_int (Fin x) = Inr (if 0 \<le> x then \<lfloor>x\<rfloor> else \<lceil>x\<rceil>)"
| "float_to_int NaN = Inl ValueError"
| "float_to_int _ = Inl OverflowError"

subsection \<open>Numbers\<close>

text \<open>
  \<^verbatim>\<open>desired_fps\<close> is whatever number the caller passes: an unbounded \<^verbatim>\<open>int\<close> or a
  \<^verbatim>\<open>float\<close>. In \<^verbatim>\<open>1000.0 / self.desired_fps\<close> an \<^verbatim>\<open>int\<close> is first converted to
  a float, which rounds to nearest and raises \<^verbatim>\<open>OverflowError\<close> when the result is
  not finite.
\<close>

datatype pynum = PyInt int | PyFloat pyfloat

fun to_float :: "pynum \<Rightarrow> error + pyfloat" where
  "to_float (PyFloat f) = Inr f"
| "to_float (PyInt i) =
     (case round_double (of_int i) of Fin y \<Rightarrow> Inr (Fin y) | _ \<Rightarrow> Inl OverflowError)"

definition float_truediv :: "pyfloat \<Rightarrow> pynum \<Rightarrow> error + pyfloat" where
  "float_truediv a n = (case to_float n of Inl e \<Rightarrow> Inl e | Inr b \<Rightarrow> float_div a b)"

section \<open>The library's entry points and the interception combinator\<close>

text \<open>
  A callable is known by reference only. \<open>Native\<close> stands for a function that was
  installed before the session touched the slot, \<open>Bound\<close> for a bound method of the
  session, and \<open>Intercept f g\<close> for the closure \<^verbatim>\<open>wrap\<close> that
  \<^verbatim>\<open>function_intercept(f, g)\<close> returns: it holds the two callables it was built from.
\<close>

datatype pymethod =
    M_on_screen_update
  | M_on_event_get
  | M_on_time_clock
  | M_get_game_time_ms
  | M_get_ms_per_frame

datatype callable =
    Native string
  | Bound pymethod
  | Intercept callable callable

definition function_intercept :: "callable \<Rightarrow> callable \<Rightarrow> callable" where
  "function_intercept intercepted_func intercepting_func =
     Intercept intercepted_func intercepting_func"

text \<open>The five module attributes of \<^verbatim>\<open>pygame\<close> that the session replaces.\<close>

record pygame =
  display_flip :: callable
  display_update :: callable
  event_get :: callable
  time_Clock :: callable
  time_get_ticks :: callable

text \<open>
  The event-type constants come from \<^verbatim>\<open>pygame.constants\<close>, which is not part of the
  repository; they are parameters of the model.
\<close>

record pygame_constants =
  QUIT :: int
  KEYUP :: int
  KEYDOWN :: int

definition distinct_constants :: "pygame_constants \<Rightarrow> bool" where
  "distinct_constants c \<longleftrightarrow>
     QUIT c \<noteq> KEYUP c \<and> QUIT c \<noteq> KEYDOWN c \<and> KEYUP c \<noteq> KEYDOWN c"

section \<open>The session: class \<^verbatim>\<open>PyGamePlayer\<close>\<close>

type_synonym key = int

record player =
  desired_fps :: pynum
  keys_pressed :: "key list"
  last_keys_pressed :: "key list"
  playing :: bool
  default_flip :: callable
  default_update :: callable
  default_event_get :: callable
  default_time_clock :: callable
  default_get_ticks :: callable
  game_time :: pyfloat

type_synonym world = "player \<times> pygame"

definition init :: "pynum \<Rightarrow> pygame \<Rightarrow> player" where
  \<comment> \<open>\<^verbatim>\<open>__init__(self, desired_fps=10)\<close>\<close>
  "init fps pg =
     \<lparr>desired_fps = fps,
      keys_pressed = [],
      last_keys_pressed = [],
      playing = False,
      default_flip = display_flip pg,
      default_update = display_update pg,
      default_event_get = event_get pg,
      default_time_clock = time_Clock pg,
      default_get_ticks = time_get_ticks pg,
      game_time = Fin 0\<rparr>"

text \<open>
  The two methods a subclass overrides. They receive the session (\<^verbatim>\<open>self\<close>) and
  return a value or raise; the base class raises in both.
\<close>

record ('frame, 'feedback) agent =
  get_feedback :: "player \<Rightarrow> error + 'feedback"
  get_keys_pressed :: "player \<Rightarrow> 'frame \<Rightarrow> 'feedback \<Rightarrow> error + key list"

definition base_agent :: "('frame, 'feedback) agent" where
  "base_agent =
     \<lparr>get_feedback = (\<lambda>_. Inl (NotImplementedError ''Please override this method'')),
      get_keys_pressed =
        (\<lambda>_ _ _. Inl (NotImplementedError ''Please override this method''))\<rparr>"

subsection \<open>\<^verbatim>\<open>start\<close> and \<^verbatim>\<open>stop\<close>\<close>

definition start :: "world \<Rightarrow> (error + unit) \<times> world" where
  "start w = (case w of (s, pg) \<Rightarrow>
     if playing s then (Inl (Exception ''Already playing''), (s, pg))
     else
       let s1 = s\<lparr>default_flip := display_flip pg\<rparr>;
           s2 = s1\<lparr>default_update := display_update pg\<rparr>;
           s3 = s2\<lparr>default_event_get := event_get pg\<rparr>;
           s4 = s3\<lparr>default_time_clock := time_Clock pg\<rparr>;
           s5 = s4\<lparr>default_get_ticks := time_get_ticks pg\<rparr>;
           pg1 = pg\<lparr>display_flip :=
                   function_intercept (display_flip pg) (Bound M_on_screen_update)\<rparr>;
           pg2 = pg1\<lparr>display_update :=
                   function_intercept (display_update pg1) (Bound M_on_screen_update)\<rparr>;
           pg3 = pg2\<lparr>event_get :=
                   function_intercept (event_get pg2) (Bound M_on_event_get)\<rparr>;
           pg4 = pg3\<lparr>time_Clock :=
                   function_intercept (time_Clock pg3) (Bound M_on_time_clock)\<rparr>;
           pg5 = pg4\<lparr>time_get_ticks :=
                   function_intercept (time_get_ticks pg4) (Bound M_get_game_time_ms)\<rparr>
       in (Inr (), (s5\<lparr>playing := True\<rparr>, pg5)))"

definition stop :: "world \<Rightarrow> (error + unit) \<times> world" where
  "stop w = (case w of (s, pg) \<Rightarrow>
     if \<not> playing s then (Inl (Exception ''Already stopped''), (s, pg))
     else
       let pg1 = pg\<lparr>display_flip := default_flip s\<rparr>;
           pg2 = pg1\<lparr>display_update := default_update s\<rparr>;
           pg3 = pg2\<lparr>event_get := default_event_get s\<rparr>;
           pg4 = pg3\<lparr>time_Clock := default_time_clock s\<rparr>;
           pg5 = pg4\<lparr>time_get_ticks := default_get_ticks s\<rparr>
       in (Inr (), (s\<lparr>playing := False\<rparr>, pg5)))"

subsection \<open>The \<^verbatim>\<open>playing\<close> property and the context manager\<close>

definition set_playing :: "bool \<Rightarrow> world \<Rightarrow> (error + unit) \<times> world" where
  "set_playing value w =
     (if playing (fst w) = value then (Inr (), w)
      else if playing (fst w) then stop w
      else start w)"

definition enter :: "world \<Rightarrow> (error + unit) \<times> world" where
  \<comment> \<open>\<^verbatim>\<open>__enter__\<close>\<close>
  "enter w = start w"

definition exit_player :: "error option \<Rightarrow> world \<Rightarrow> (error + unit) \<times> world" where
  \<comment> \<open>\<^verbatim>\<open>__exit__\<close>: the exception of the body, if any, is not looked at\<close>
  "exit_player exc w = stop w"

text \<open>
  Python's \<^verbatim>\<open>with player: body\<close>. When \<^verbatim>\<open>__enter__\<close> raises, neither the body nor
  \<^verbatim>\<open>__exit__\<close> runs. Otherwise \<^verbatim>\<open>__exit__\<close> runs once, after the body, however the
  body ended; it returns \<^verbatim>\<open>None\<close>, so an exception of the body goes on propagating,
  unless \<^verbatim>\<open>__exit__\<close> itself raises.
\<close>

definition with_player ::
    "(world \<Rightarrow> (error + 'a) \<times> world) \<Rightarrow> world \<Rightarrow> (error + 'a) \<times> world" where
  "with_player body w =
     (case enter w of
        (Inl e, w1) \<Rightarrow> (Inl e, w1)
      | (Inr _, w1) \<Rightarrow>
          (case body w1 of (r, w2) \<Rightarrow>
             (case exit_player (case r of Inl e \<Rightarrow> Some e | Inr _ \<Rightarrow> None) w2 of
                (Inl e, w3) \<Rightarrow> (Inl e, w3)
              | (Inr _, w3) \<Rightarrow> (r, w3))))"

text \<open>
  A caller that issues a sequence of \<^verbatim>\<open>start()\<close> and \<^verbatim>\<open>stop()\<close> calls, catching
  what each raises: the outcomes are collected in order.
\<close>

datatype lifecycle_call = Start | Stop

fun run_call :: "lifecycle_call \<Rightarrow> world \<Rightarrow> (error + unit) \<times> world" where
  "run_call Start w = start w"
| "run_call Stop w = stop w"

fun run_calls :: "lifecycle_call list \<Rightarrow> world \<Rightarrow> (error + unit) list \<times> world" where
  "run_calls [] w = ([], w)"
| "run_calls (c # cs) w =
     (case run_call c w of (r, w1) \<Rightarrow>
        (case run_calls cs w1 of (rs, w2) \<Rightarrow> (r # rs, w2)))"

subsection \<open>Timing\<close>

definition get_ms_per_frame :: "player \<Rightarrow> error + pyfloat" where
  "get_ms_per_frame s = float_truediv (Fin 1000) (desired_fps s)"

definition get_game_time_ms :: "player \<Rightarrow> pyfloat" where
  "get_game_time_ms s = game_time s"

subsection \<open>The frame handler\<close>

text \<open>
  \<^verbatim>\<open>_on_screen_update\<close> ignores the result of the real call and its arguments. Its
  first statement reads the display surface through the library; \<open>surface\<close> is what
  that read gives (an array, or the exception it raises). The two key lists are
  assigned before the interval is computed, so a failing division leaves them updated.
\<close>

definition on_screen_update ::
    "('frame, 'feedback) agent \<Rightarrow> error + 'frame \<Rightarrow> player \<Rightarrow> (error + unit) \<times> player" where
  "on_screen_update ag surface s =
     (case surface of
        Inl e \<Rightarrow> (Inl e, s)
      | Inr surface_array \<Rightarrow>
          (case get_feedback ag s of
             Inl e \<Rightarrow> (Inl e, s)
           | Inr reward \<Rightarrow>
               (case get_keys_pressed ag s surface_array reward of
                  Inl e \<Rightarrow> (Inl e, s)
                | Inr keys \<Rightarrow>
                    let s1 = s\<lparr>last_keys_pressed := keys_pressed s\<rparr>;
                        s2 = s1\<lparr>keys_pressed := keys\<rparr>
                    in (case get_ms_per_frame s2 of
                          Inl e \<Rightarrow> (Inl e, s2)
                        | Inr ms \<Rightarrow>
                            (Inr (), s2\<lparr>game_time := float_add (game_time s2) ms\<rparr>)))))"

text \<open>
  The host calling the intercepted present function once per frame; \<open>surfaces\<close> holds
  what the display read gives at each call. An exception ends the run, as it would
  propagate out of the game loop.
\<close>

fun run_frames ::
    "('frame, 'feedback) agent \<Rightarrow> (error + 'frame) list \<Rightarrow> player \<Rightarrow> (error + unit) \<times> player" where
  "run_frames ag [] s = (Inr (), s)"
| "run_frames ag (surface # surfaces) s =
     (case on_screen_update ag surface s of
        (Inl e, s1) \<Rightarrow> (Inl e, s1)
      | (Inr _, s1) \<Rightarrow> run_frames ag surfaces s1)"

subsection \<open>The event-synthesis handler\<close>

text \<open>
  An event carries its type and its attribute dictionary. The positional arguments of
  the poll are arbitrary objects: an integer, an object with \<^verbatim>\<open>__iter__\<close> (given by
  its elements), or anything else. Only an integer compares equal to an event-type
  constant.
\<close>

datatype event = Event (event_type: int) (event_dict: "(string \<times> key) list")

datatype pyobj = IntObj int | Iterable "pyobj list" | OtherObj

fun py_eq :: "pyobj \<Rightarrow> int \<Rightarrow> bool" where
  "py_eq (IntObj t) k = (t = k)"
| "py_eq _ k = False"

fun has_iter :: "pyobj \<Rightarrow> bool" where
  "has_iter (Iterable _) = True"
| "has_iter _ = False"

fun iterate :: "pyobj \<Rightarrow> pyobj list" where
  "iterate (Iterable xs) = xs"
| "iterate _ = []"

fun filter_loop ::
    "pygame_constants \<Rightarrow> event list \<Rightarrow> event list \<Rightarrow> pyobj list \<Rightarrow> event list \<Rightarrow> event list" where
  \<comment> \<open>the \<^verbatim>\<open>for type_filter in args\<close> loop, with \<open>result\<close> as accumulator\<close>
  "filter_loop c key_up_events key_down_events [] result = result"
| "filter_loop c key_up_events key_down_events (type_filter # rest) result =
     filter_loop c key_up_events key_down_events rest
       (if py_eq type_filter (QUIT c) then result
        else if py_eq type_filter (KEYUP c) then result @ key_up_events
        else if py_eq type_filter (KEYDOWN c) then result @ key_down_events
        else result)"

definition on_event_get :: "pygame_constants \<Rightarrow> player \<Rightarrow> pyobj list \<Rightarrow> event list" where
  \<comment> \<open>the result of the real poll and the keyword arguments are not used\<close>
  "on_event_get c s args =
     (let key_down_events =
            [Event (KEYDOWN c) [(''key'', x)].
               x \<leftarrow> keys_pressed s, x \<notin> set (last_keys_pressed s)];
          key_up_events =
            [Event (KEYUP c) [(''key'', x)].
               x \<leftarrow> last_keys_pressed s, x \<notin> set (keys_pressed s)]
      in case args of
           [] \<Rightarrow> key_down_events @ key_up_events
         | first # _ \<Rightarrow>
             filter_loop c key_up_events key_down_events
               (if has_iter first then iterate first else args) [])"

subsection \<open>The synthetic clock: class \<^verbatim>\<open>_FixedFPSClock\<close>\<close>

text \<open>
  The clock stores the two constructor arguments as they are and calls them later. What
  \<^verbatim>\<open>_on_time_clock\<close> passes is a bound method of the session and a float; calling a
  float raises \<^verbatim>\<open>TypeError\<close>, as does calling a handler without its positional
  argument. A bound method runs on the session as it is at the time of the call.
\<close>

datatype pyval = VFloat pyfloat | VMethod pymethod

record fixed_fps_clock =
  get_ms_per_frame_func :: pyval
  get_time_ms_func :: pyval

definition FixedFPSClock :: "pyval \<Rightarrow> pyval \<Rightarrow> fixed_fps_clock" where
  "FixedFPSClock get_seconds_per_frame_func get_time_ms_func' =
     \<lparr>get_ms_per_frame_func = get_seconds_per_frame_func,
      get_time_ms_func = get_time_ms_func'\<rparr>"

fun call_noargs :: "player \<Rightarrow> pyval \<Rightarrow> error + pyfloat" where
  "call_noargs s (VMethod M_get_ms_per_frame) = get_ms_per_frame s"
| "call_noargs s (VMethod M_get_game_time_ms) = Inr (get_game_time_ms s)"
| "call_noargs s (VMethod _) = Inl TypeError"
| "call_noargs s (VFloat _) = Inl TypeError"

definition on_time_clock :: "player \<Rightarrow> fixed_fps_clock" where
  \<comment> \<open>the real clock and the constructor's arguments are ignored\<close>
  "on_time_clock s = FixedFPSClock (VMethod M_get_ms_per_frame) (VFloat (game_time s))"

definition tick :: "fixed_fps_clock \<Rightarrow> player \<Rightarrow> error + pyfloat" where
  "tick clk s = call_noargs s (get_ms_per_frame_func clk)"

definition tick_busy_loop :: "fixed_fps_clock \<Rightarrow> player \<Rightarrow> error + pyfloat" where
  "tick_busy_loop clk s = call_noargs s (get_ms_per_frame_func clk)"

definition get_time :: "fixed_fps_clock \<Rightarrow> player \<Rightarrow> error + pyfloat" where
  "get_time clk s = call_noargs s (get_time_ms_func clk)"

definition get_raw_time :: "fixed_fps_clock \<Rightarrow> player \<Rightarrow> error + pyfloat" where
  "get_raw_time clk s = call_noargs s (get_time_ms_func clk)"

definition get_fps :: "fixed_fps_clock \<Rightarrow> player \<Rightarrow> error + int" where
  "get_fps clk s =
     (case call_noargs s (get_ms_per_frame_func clk) of
        Inl e \<Rightarrow> Inl e
      | Inr ms \<Rightarrow>
          (case float_div (Fin 1) ms of
             Inl e \<Rightarrow> Inl e
           | Inr q \<Rightarrow> float_to_int q))"

section \<open>Reference behaviour and sample data\<close>

text \<open>
  Which calls of a sequence of \<^verbatim>\<open>start()\<close>/\<^verbatim>\<open>stop()\<close> calls are expected to fail,
  computed from the active flag alone: a \<^verbatim>\<open>start\<close> while active, a \<^verbatim>\<open>stop\<close> while
  inactive.
\<close>

fun expected_failures :: "bool \<Rightarrow> lifecycle_call list \<Rightarrow> bool list" where
  "expected_failures p [] = []"
| "expected_failures p (Start # cs) = p # expected_failures True cs"
| "expected_failures p (Stop # cs) = (\<not> p) # expected_failures False cs"

text \<open>A library with its own five functions, a fresh session, and the session started.\<close>

definition pg0 :: pygame where
  "pg0 = \<lparr>display_flip = Native ''flip'', display_update = Native ''update'',
          event_get = Native ''get'', time_Clock = Native ''Clock'',
          time_get_ticks = Native ''get_ticks''\<rparr>"

definition player0 :: player where
  "player0 = init (PyInt 10) pg0"

definition player1 :: player where
  "player1 = fst (snd (start (player0, pg0)))"

definition pg1 :: pygame where
  "pg1 = snd (snd (start (player0, pg0)))"

text \<open>
  The key-set diff in the words of the specification: the keys of one list that are not
  in the other, in their original order, each turned into an event.
\<close>

definition key_down_spec :: "pygame_constants \<Rightarrow> player \<Rightarrow> event list" where
  "key_down_spec c s =
     map (\<lambda>x. Event (KEYDOWN c) [(''key'', x)])
       (filter (\<lambda>x. x \<notin> set (last_keys_pressed s)) (keys_pressed s))"

definition key_up_spec :: "pygame_constants \<Rightarrow> player \<Rightarrow> event list" where
  "key_up_spec c s =
     map (\<lambda>x. Event (KEYUP c) [(''key'', x)])
       (filter (\<lambda>x. x \<notin> set (keys_pressed s)) (last_keys_pressed s))"

text \<open>
  What one type filter contributes, in the words of the specification: the key-up
  events for the key-released type, the key-down events for the key-pressed type,
  nothing for anything else (the quit type included).
\<close>

definition events_for_filter :: "pygame_constants \<Rightarrow> player \<Rightarrow> pyobj \<Rightarrow> event list" where
  "events_for_filter c s f =
     (if f = IntObj (KEYUP c) then key_up_spec c s
      else if f = IntObj (KEYDOWN c) then key_down_spec c s
      else [])"

text \<open>The event-type constants of pygame 2, and a started session with given key lists.\<close>

definition pygame2 :: pygame_constants where
  "pygame2 = \<lparr>QUIT = 256, KEYUP = 769, KEYDOWN = 768\<rparr>"

definition keys_player :: "key list \<Rightarrow> key list \<Rightarrow> player" where
  "keys_player cur prev = player1\<lparr>keys_pressed := cur, last_keys_pressed := prev\<rparr>"

text \<open>
  \<open>same_saved s s'\<close>: the session \<open>s'\<close> has the active flag and the five saved
  references of \<open>s\<close>. A body that does not start or stop the session leaves them so.
\<close>

definition same_saved :: "player \<Rightarrow> player \<Rightarrow> bool" where
  "same_saved s s' \<longleftrightarrow>
     playing s' = playing s \<and> default_flip s' = default_flip s \<and>
     default_update s' = default_update s \<and> default_event_get s' = default_event_get s \<and>
     default_time_clock s' = default_time_clock s \<and> default_get_ticks s' = default_get_ticks s"

text \<open>
  Two bodies for a \<^verbatim>\<open>with\<close> block: one presents a frame with the callbacks of the
  base class, which raise; one does nothing.
\<close>

definition failing_body :: "world \<Rightarrow> (error + unit) \<times> world" where
  "failing_body w =
     (case run_frames (base_agent :: (unit, unit) agent) [Inr ()] (fst w) of
        (r, s) \<Rightarrow> (r, (s, snd w)))"

definition empty_body :: "world \<Rightarrow> (error + unit) \<times> world" where
  "empty_body w = (Inr (), w)"

text \<open>
  A rational is representable when rounding leaves it as it is, that is, when it is
  the value of a finite float.
\<close>

definition representable :: "rat \<Rightarrow> bool" where
  "representable q \<longleftrightarrow> round_double q = Fin q"

text \<open>A specialization whose callbacks return, and a session at 60 frames per second.\<close>

definition agent_returns :: "('frame, 'feedback) agent \<Rightarrow> bool" where
  "agent_returns ag \<longleftrightarrow>
     (\<forall>s. \<not> isl (get_feedback ag s)) \<and>
     (\<forall>s fr fb. \<not> isl (get_keys_pressed ag s fr fb))"

definition idle_agent :: "(unit, unit) agent" where
  "idle_agent = \<lparr>get_feedback = (\<lambda>_. Inr ()), get_keys_pressed = (\<lambda>_ _ _. Inr [])\<rparr>"

definition player60 :: player where
  "player60 = init (PyInt 60) pg0"

section \<open>Properties of the lifecycle\<close>

lemma playing_player0: "\<not> playing player0"
  by (simp add: player0_def init_def)

lemma playing_player1: "playing player1"
  by (simp add: player1_def player0_def init_def start_def Let_def)

lemma start_playing:
  "playing s \<Longrightarrow> start (s, pg) = (Inl (Exception ''Already playing''), (s, pg))"
  by (simp add: start_def)

lemma start_not_playing:
  "\<not> playing s \<Longrightarrow> fst (start (s, pg)) = Inr () \<and> playing (fst (snd (start (s, pg))))"
  by (simp add: start_def Let_def)

lemma start_ok:
  "\<not> playing s \<Longrightarrow> start (s, pg) = (Inr (), (s1, pg')) \<Longrightarrow>
     playing s1 \<and> default_flip s1 = display_flip pg \<and> default_update s1 = display_update pg \<and>
     default_event_get s1 = event_get pg \<and> default_time_clock s1 = time_Clock pg \<and>
     default_get_ticks s1 = time_get_ticks pg"
  by (auto simp: start_def Let_def)

lemma stop_not_playing:
  "\<not> playing s \<Longrightarrow> stop (s, pg) = (Inl (Exception ''Already stopped''), (s, pg))"
  by (simp add: stop_def)

lemma stop_playing:
  "playing s \<Longrightarrow> stop (s, pg) = (Inr (), (s\<lparr>playing := False\<rparr>,
      \<lparr>display_flip = default_flip s, display_update = default_update s,
       event_get = default_event_get s, time_Clock = default_time_clock s,
       time_get_ticks = default_get_ticks s\<rparr>))"
  by (simp add: stop_def Let_def)

text \<open>The frame handler touches the key lists and the game time only.\<close>

lemma run_frames_preserves:
  "run_frames ag surfaces s = (r, s') \<Longrightarrow>
     playing s' = playing s \<and> default_flip s' = default_flip s \<and>
     default_update s' = default_update s \<and> default_event_get s' = default_event_get s \<and>
     default_time_clock s' = default_time_clock s \<and> default_get_ticks s' = default_get_ticks s"
proof (induction surfaces arbitrary: s)
  case Nil
  then show ?case by simp
next
  case (Cons a surfaces)
  then show ?case
    by (auto simp: on_screen_update_def Let_def split: sum.splits prod.splits)
qed

text \<open>
  Claim C1. When \<^verbatim>\<open>start()\<close> succeeds and \<^verbatim>\<open>stop()\<close> is called afterwards, with any
  number of intercepted frames handled in between, \<^verbatim>\<open>stop()\<close> succeeds and the five
  entry points of the library are again the very callables they were before
  \<^verbatim>\<open>start()\<close>.
\<close>

theorem start_stop_restores:
  assumes "start (s, pg) = (Inr (), (s1, pg'))"
      and "run_frames ag surfaces s1 = (r, s2)"
  shows "stop (s2, pg') = (Inr (), (s2\<lparr>playing := False\<rparr>, pg))"
proof -
  have np: "\<not> playing s"
    using assms(1) by (auto simp: start_def)
  note st = start_ok [OF np assms(1)]
  note fr = run_frames_preserves [OF assms(2)]
  have "playing s2" using st fr by simp
  then show ?thesis
    using st fr by (simp add: stop_playing)
qed

theorem start_stop_restores_witness:
  "fst (start (player0, pg0)) = Inr () \<and>
   fst (stop (snd (start (player0, pg0)))) = Inr () \<and>
   snd (snd (stop (snd (start (player0, pg0))))) = pg0"
proof -
  obtain s1 pg' where a: "start (player0, pg0) = (Inr (), (s1, pg'))"
    by (simp add: start_def player0_def init_def Let_def)
  have b: "run_frames (base_agent :: (unit, unit) agent) [] s1 = (Inr (), s1)"
    by simp
  show ?thesis
    using start_stop_restores [OF a b] a by simp
qed

lemma run_calls_Cons:
  "run_call c w = (r, w1) \<Longrightarrow> fst (run_calls (c # cs) w) = r # fst (run_calls cs w1)"
  by (simp split: prod.splits)

lemma run_calls_failures:
  "map isl (fst (run_calls cs (s, pg))) = expected_failures (playing s) cs"
proof (induction cs arbitrary: s pg)
  case Nil
  then show ?case by simp
next
  case (Cons c cs)
  show ?case
  proof (cases c)
    case Start
    show ?thesis
    proof (cases "playing s")
      case True
      have "run_call c (s, pg) = (Inl (Exception ''Already playing''), (s, pg))"
        using True Start by (simp add: start_playing)
      from run_calls_Cons [OF this] show ?thesis
        using Cons [of s pg] Start True by simp
    next
      case False
      obtain s1 pg' where e: "start (s, pg) = (Inr (), (s1, pg'))" and p: "playing s1"
        using start_not_playing [OF False, of pg]
        by (metis fst_conv prod.collapse snd_conv)
      have "run_call c (s, pg) = (Inr (), (s1, pg'))"
        using e Start by simp
      from run_calls_Cons [OF this] show ?thesis
        using Cons [of s1 pg'] Start False p by simp
    qed
  next
    case Stop
    show ?thesis
    proof (cases "playing s")
      case True
      obtain pg' where "run_call c (s, pg) = (Inr (), (s\<lparr>playing := False\<rparr>, pg'))"
        using True Stop by (simp add: stop_playing)
      from run_calls_Cons [OF this] show ?thesis
        using Cons [of "s\<lparr>playing := False\<rparr>" pg'] Stop True by simp
    next
      case False
      have "run_call c (s, pg) = (Inl (Exception ''Already stopped''), (s, pg))"
        using False Stop by (simp add: stop_not_playing)
      from run_calls_Cons [OF this] show ?thesis
        using Cons [of s pg] Stop False by simp
    qed
  qed
qed

text \<open>
  Claim C7. \<^verbatim>\<open>start()\<close> raises exactly when the session is active and \<^verbatim>\<open>stop()\<close>
  exactly when it is inactive; a call that raises leaves the session and the library as
  they were. Hence, in any sequence of \<^verbatim>\<open>start()\<close>/\<^verbatim>\<open>stop()\<close> calls, the calls
  that fail are those that repeat the state the session is already in.
\<close>

theorem start_stop_errors:
  "(isl (fst (start (s, pg))) \<longleftrightarrow> playing s) \<and>
   (isl (fst (stop (s, pg))) \<longleftrightarrow> \<not> playing s) \<and>
   (playing s \<longrightarrow> start (s, pg) = (Inl (Exception ''Already playing''), (s, pg))) \<and>
   (\<not> playing s \<longrightarrow> stop (s, pg) = (Inl (Exception ''Already stopped''), (s, pg))) \<and>
   map isl (fst (run_calls cs (s, pg))) = expected_failures (playing s) cs"
proof -
  have 1: "isl (fst (start (s, pg))) \<longleftrightarrow> playing s"
    using start_not_playing [of s pg] by (cases "playing s") (simp_all add: start_playing)
  have 2: "isl (fst (stop (s, pg))) \<longleftrightarrow> \<not> playing s"
    by (cases "playing s") (simp_all add: stop_playing stop_not_playing)
  show ?thesis
    using 1 2 by (simp add: start_playing stop_not_playing run_calls_failures)
qed

theorem start_stop_errors_witness:
  "\<not> playing player0 \<and> playing player1 \<and>
   stop (player0, pg0) = (Inl (Exception ''Already stopped''), (player0, pg0)) \<and>
   start (player1, pg1) = (Inl (Exception ''Already playing''), (player1, pg1)) \<and>
   map isl (fst (run_calls [Start, Start, Stop, Stop, Start] (player0, pg0)))
     = [False, True, False, True, False]"
  using start_stop_errors [of player0 pg0 "[Start, Start, Stop, Stop, Start]"]
    start_stop_errors [of player1 pg1 "[]"]
  by (simp add: playing_player0 playing_player1)

text \<open>
  Claim C8. Writing a boolean to the \<^verbatim>\<open>playing\<close> property never raises and leaves
  the flag equal to the value written. Writing the current value changes nothing;
  writing the other value is exactly \<^verbatim>\<open>start()\<close> (for \<^verbatim>\<open>True\<close>) or \<^verbatim>\<open>stop()\<close>
  (for \<^verbatim>\<open>False\<close>).
\<close>

theorem set_playing_ok:
  "fst (set_playing v (s, pg)) = Inr () \<and>
   playing (fst (snd (set_playing v (s, pg)))) = v \<and>
   (playing s = v \<longrightarrow> set_playing v (s, pg) = (Inr (), (s, pg))) \<and>
   (playing s \<noteq> v \<longrightarrow> set_playing v (s, pg) = (if v then start (s, pg) else stop (s, pg)))"
  using start_not_playing [of s pg]
  by (auto simp: set_playing_def stop_playing)

theorem set_playing_ok_witness:
  "\<not> playing player0 \<and> playing player1 \<and>
   set_playing False (player0, pg0) = (Inr (), (player0, pg0)) \<and>
   set_playing True (player0, pg0) = start (player0, pg0) \<and>
   set_playing True (player1, pg1) = (Inr (), (player1, pg1)) \<and>
   set_playing False (player1, pg1) = stop (player1, pg1)"
  using set_playing_ok [of True player0 pg0] set_playing_ok [of False player0 pg0]
    set_playing_ok [of True player1 pg1] set_playing_ok [of False player1 pg1]
  by (simp add: playing_player0 playing_player1)

section \<open>Properties of the event-synthesis handler\<close>

lemma comprehension_down:
  "[Event k [(''key'', x)]. x \<leftarrow> xs, x \<notin> set ys]
     = map (\<lambda>x. Event k [(''key'', x)]) (filter (\<lambda>x. x \<notin> set ys) xs)"
  by (induction xs) simp_all

lemma on_event_get_unfold:
  "on_event_get c s args =
     (case args of
        [] \<Rightarrow> key_down_spec c s @ key_up_spec c s
      | first # _ \<Rightarrow>
          filter_loop c (key_up_spec c s) (key_down_spec c s)
            (if has_iter first then iterate first else args) [])"
  by (cases args)
    (simp_all add: on_event_get_def key_down_spec_def key_up_spec_def comprehension_down Let_def)

text \<open>
  Claim C2. A poll without type filter returns the key-down events for the keys of
  \<^verbatim>\<open>_keys_pressed\<close> that are not in \<^verbatim>\<open>_last_keys_pressed\<close>, in the order of
  \<^verbatim>\<open>_keys_pressed\<close>, followed by the key-up events for the keys of
  \<^verbatim>\<open>_last_keys_pressed\<close> that are not in \<^verbatim>\<open>_keys_pressed\<close>, in that list's order.
  With current keys \<open>[A, B]\<close> and previous keys \<open>[A]\<close>, for two different keys, the
  result is the single key-down event for \<open>B\<close>.
\<close>

theorem on_event_get_no_filter:
  "on_event_get c s [] =
     map (\<lambda>x. Event (KEYDOWN c) [(''key'', x)])
       (filter (\<lambda>x. x \<notin> set (last_keys_pressed s)) (keys_pressed s)) @
     map (\<lambda>x. Event (KEYUP c) [(''key'', x)])
       (filter (\<lambda>x. x \<notin> set (keys_pressed s)) (last_keys_pressed s)) \<and>
   (A \<noteq> B \<longrightarrow> keys_pressed s = [A, B] \<longrightarrow> last_keys_pressed s = [A] \<longrightarrow>
      on_event_get c s [] = [Event (KEYDOWN c) [(''key'', B)]])"
  by (simp add: on_event_get_unfold key_down_spec_def key_up_spec_def)

theorem on_event_get_no_filter_witness:
  "(1::int) \<noteq> 2 \<and> keys_pressed (keys_player [1, 2] [1]) = [1, 2] \<and>
   last_keys_pressed (keys_player [1, 2] [1]) = [1] \<and>
   on_event_get pygame2 (keys_player [1, 2] [1]) [] = [Event 768 [(''key'', 2)]]"
  using on_event_get_no_filter [of pygame2 "keys_player [1, 2] [1]" 1 2]
  by (simp add: keys_player_def pygame2_def)

lemma filter_loop_concat:
  assumes "distinct_constants c"
  shows "filter_loop c (key_up_spec c s) (key_down_spec c s) fs acc
           = acc @ concat (map (events_for_filter c s) fs)"
proof (induction fs arbitrary: acc)
  case Nil
  then show ?case by simp
next
  case (Cons f fs)
  have "(if py_eq f (QUIT c) then acc
         else if py_eq f (KEYUP c) then acc @ key_up_spec c s
         else if py_eq f (KEYDOWN c) then acc @ key_down_spec c s
         else acc) = acc @ events_for_filter c s f"
    using assms by (cases f) (auto simp: events_for_filter_def distinct_constants_def)
  then show ?case
    using Cons [of "acc @ events_for_filter c s f"] by simp
qed

lemma filter_loop_types:
  assumes "\<forall>e \<in> set ups. event_type e = KEYUP c"
      and "\<forall>e \<in> set downs. event_type e = KEYDOWN c"
      and "\<forall>e \<in> set acc. event_type e = KEYUP c \<or> event_type e = KEYDOWN c"
  shows "\<forall>e \<in> set (filter_loop c ups downs fs acc). event_type e = KEYUP c \<or> event_type e = KEYDOWN c"
  using assms
proof (induction fs arbitrary: acc)
  case Nil
  then show ?case by simp
next
  case (Cons f fs)
  show ?case
    unfolding filter_loop.simps
    by (rule Cons.IH) (use Cons.prems in auto)
qed

lemma on_event_get_types:
  "e \<in> set (on_event_get c s args) \<Longrightarrow> event_type e = KEYUP c \<or> event_type e = KEYDOWN c"
proof -
  have u: "\<forall>e \<in> set (key_up_spec c s). event_type e = KEYUP c"
    by (auto simp: key_up_spec_def)
  have d: "\<forall>e \<in> set (key_down_spec c s). event_type e = KEYDOWN c"
    by (auto simp: key_down_spec_def)
  have n: "\<forall>e \<in> set ([]::event list). event_type e = KEYUP c \<or> event_type e = KEYDOWN c"
    by simp
  assume "e \<in> set (on_event_get c s args)"
  then show ?thesis
    using u d filter_loop_types [OF u d n]
    by (cases args) (auto simp: on_event_get_unfold)
qed

text \<open>
  Claim C3. With the three event-type constants pairwise different, a poll called with
  one iterable of filters, or with positional filters the first of which is not
  iterable, returns the concatenation over the filters, in the order given, of: nothing
  for the quit type, the key-up events for the key-released type, the key-down events
  for the key-pressed type, nothing for any other filter. No poll, whatever its
  arguments, returns an event of the quit type.
\<close>

theorem on_event_get_filtered:
  assumes "distinct_constants c"
  shows "events_for_filter c s (IntObj (QUIT c)) = [] \<and>
         events_for_filter c s (IntObj (KEYUP c)) = key_up_spec c s \<and>
         events_for_filter c s (IntObj (KEYDOWN c)) = key_down_spec c s \<and>
         on_event_get c s [Iterable fs] = concat (map (events_for_filter c s) fs) \<and>
         (\<not> has_iter f \<longrightarrow>
            on_event_get c s (f # rest) = concat (map (events_for_filter c s) (f # rest))) \<and>
         (\<forall>e \<in> set (on_event_get c s args). event_type e \<noteq> QUIT c)"
proof -
  have 1: "events_for_filter c s (IntObj (QUIT c)) = []"
    using assms by (simp add: events_for_filter_def distinct_constants_def)
  have 2: "events_for_filter c s (IntObj (KEYUP c)) = key_up_spec c s"
    by (simp add: events_for_filter_def)
  have 3: "events_for_filter c s (IntObj (KEYDOWN c)) = key_down_spec c s"
    using assms by (simp add: events_for_filter_def distinct_constants_def)
  have 4: "on_event_get c s [Iterable fs] = concat (map (events_for_filter c s) fs)"
    by (simp add: on_event_get_unfold filter_loop_concat [OF assms])
  have 5: "\<not> has_iter f \<longrightarrow>
            on_event_get c s (f # rest) = concat (map (events_for_filter c s) (f # rest))"
    by (simp add: on_event_get_unfold filter_loop_concat [OF assms] del: filter_loop.simps)
  have 6: "\<forall>e \<in> set (on_event_get c s args). event_type e \<noteq> QUIT c"
  proof
    fix e assume "e \<in> set (on_event_get c s args)"
    from on_event_get_types [OF this] show "event_type e \<noteq> QUIT c"
      using assms by (auto simp: distinct_constants_def)
  qed
  show ?thesis
    using 1 2 3 4 5 6 by blast
qed

theorem on_event_get_filtered_witness:
  "distinct_constants pygame2 \<and>
   on_event_get pygame2 (keys_player [1] [1, 2]) [IntObj 769] = [Event 769 [(''key'', 2)]] \<and>
   on_event_get pygame2 (keys_player [1] [1, 2]) [IntObj 768] = [] \<and>
   on_event_get pygame2 (keys_player [1, 3] [1, 2]) [Iterable [IntObj 256, IntObj 768, IntObj 769, IntObj 5]]
     = [Event 768 [(''key'', 3)], Event 769 [(''key'', 2)]]"
proof -
  have d: "distinct_constants pygame2"
    by (simp add: distinct_constants_def pygame2_def)
  have n: "\<not> has_iter (IntObj k)" for k
    by simp
  show ?thesis
    using d on_event_get_filtered [OF d, of "keys_player [1] [1, 2]" "[]" "IntObj 769" "[]" "[]"]
      on_event_get_filtered [OF d, of "keys_player [1] [1, 2]" "[]" "IntObj 768" "[]" "[]"]
      on_event_get_filtered [OF d, of "keys_player [1, 3] [1, 2]"
        "[IntObj 256, IntObj 768, IntObj 769, IntObj 5]" "IntObj 0" "[]" "[]"]
    by (simp add: events_for_filter_def key_up_spec_def key_down_spec_def keys_player_def pygame2_def)
qed

text \<open>
  Claim C10. When the first positional argument of a poll is iterable, the loop runs
  over its elements only: the remaining positional arguments do not change the
  result.
\<close>

theorem on_event_get_first_iterable:
  "on_event_get c s (Iterable fs # rest) = on_event_get c s [Iterable fs] \<and>
   on_event_get c s (Iterable fs # rest)
     = filter_loop c (key_up_spec c s) (key_down_spec c s) fs []"
  by (simp add: on_event_get_unfold)

section \<open>Properties of the synthetic clock\<close>

text \<open>
  Claim C5 says that \<^verbatim>\<open>get_time()\<close> and \<^verbatim>\<open>get_raw_time()\<close> of a clock made by
  \<^verbatim>\<open>_on_time_clock\<close> return the session's game time. The clock is built with the
  value \<^verbatim>\<open>self._game_time\<close> where a function is expected, so both methods call a
  float: for every session, at every later state of it, they raise \<^verbatim>\<open>TypeError\<close>.
\<close>

theorem clock_get_time_raises:
  "get_time (on_time_clock s) s' = Inl TypeError \<and>
   get_raw_time (on_time_clock s) s' = Inl TypeError"
  by (simp add: get_time_def get_raw_time_def on_time_clock_def FixedFPSClock_def)

section \<open>Properties of the context manager\<close>

text \<open>
  Claim C9. Entering the \<^verbatim>\<open>with\<close> block of an inactive session runs \<^verbatim>\<open>start()\<close>,
  which succeeds. Whatever the outcome \<open>r\<close> of the body, a value or an exception,
  the block ends in the state that one call of \<^verbatim>\<open>stop()\<close> leaves after the body; and
  when the body has left the session active with its saved references, the five entry
  points are again those from before the block and the outcome of the block is that of
  the body.
\<close>

theorem with_player_stops:
  assumes "\<not> playing s"
      and "start (s, pg) = (r1, (s1, pg'))"
      and "body (s1, pg') = (r, (s2, pg2))"
  shows "r1 = Inr () \<and>
         snd (with_player body (s, pg)) = snd (stop (s2, pg2)) \<and>
         (same_saved s1 s2 \<longrightarrow>
            with_player body (s, pg) = (r, (s2\<lparr>playing := False\<rparr>, pg)))"
proof -
  have r1: "r1 = Inr ()"
    using start_not_playing [OF assms(1), of pg] assms(2) by simp
  note st = start_ok [OF assms(1) assms(2) [unfolded r1]]
  have w: "with_player body (s, pg) =
      (case stop (s2, pg2) of (Inl e, w3) \<Rightarrow> (Inl e, w3) | (Inr _, w3) \<Rightarrow> (r, w3))"
    using assms(2,3) r1 by (simp add: with_player_def enter_def exit_player_def)
  have a: "snd (with_player body (s, pg)) = snd (stop (s2, pg2))"
    unfolding w by (simp split: prod.splits sum.splits)
  have b: "with_player body (s, pg) = (r, (s2\<lparr>playing := False\<rparr>, pg))" if "same_saved s1 s2"
  proof -
    have "playing s2" using that st by (simp add: same_saved_def)
    then show ?thesis
      unfolding w using that st by (simp add: stop_playing same_saved_def)
  qed
  show ?thesis using r1 a b by blast
qed

theorem with_player_stops_witness:
  "\<not> playing player0 \<and>
   with_player failing_body (player0, pg0)
     = (Inl (NotImplementedError ''Please override this method''),
        (player1\<lparr>playing := False\<rparr>, pg0)) \<and>
   with_player empty_body (player0, pg0) = (Inr (), (player1\<lparr>playing := False\<rparr>, pg0))"
proof -
  have a: "start (player0, pg0) = (Inr (), (player1, pg1))"
    using start_not_playing [OF playing_player0, of pg0]
    by (simp add: player1_def pg1_def prod_eq_iff)
  have b: "failing_body (player1, pg1)
      = (Inl (NotImplementedError ''Please override this method''), (player1, pg1))"
    by (simp add: failing_body_def on_screen_update_def base_agent_def)
  have b': "empty_body (player1, pg1) = (Inr (), (player1, pg1))"
    by (simp add: empty_body_def)
  have c: "same_saved player1 player1"
    by (simp add: same_saved_def)
  show ?thesis
    using with_player_stops [where body = failing_body, OF playing_player0 a b]
      with_player_stops [where body = empty_body, OF playing_player0 a b']
      c playing_player0
    by simp
qed

section \<open>Properties of float rounding\<close>

lemma pow2_powi: "pow2 e = 2 powi e"
  by (simp add: pow2_def power_int_def field_simps)

lemma pow2_pos: "0 < pow2 e"
  by (simp add: pow2_powi)

lemma pow2_less: "a < b \<Longrightarrow> pow2 a < pow2 b"
  by (simp add: pow2_powi power_int_strict_increasing)

lemma pow2_le: "a \<le> b \<Longrightarrow> pow2 a \<le> pow2 b"
  by (simp add: pow2_powi power_int_increasing)

lemma pow2_less_iff: "pow2 a < pow2 b \<longleftrightarrow> a < b"
proof
  assume l: "pow2 a < pow2 b"
  show "a < b"
  proof (rule ccontr)
    assume "\<not> a < b"
    then have "pow2 b \<le> pow2 a"
      by (simp add: pow2_le)
    with l show False by simp
  qed
next
  assume "a < b"
  then show "pow2 a < pow2 b" by (rule pow2_less)
qed

lemma pow2_add: "pow2 (a + b) = pow2 a * pow2 b"
  by (simp add: pow2_powi power_int_add)

lemma floor_numeral_div_rat:
  "\<lfloor>(numeral a :: rat) / numeral b\<rfloor> = numeral a div numeral b"
  using floor_divide_of_int_eq [of "numeral a" "numeral b", where ?'a = rat] by simp

text \<open>\<open>flog2\<close> is the binary logarithm rounded down.\<close>

lemma flog2_bounds:
  assumes "0 < x"
  shows "pow2 (flog2 x) \<le> x \<and> x < pow2 (flog2 x + 1)"
proof -
  obtain p q where pq: "quotient_of x = (p, q)"
    by (cases "quotient_of x")
  have q: "0 < q" using pq by (rule quotient_of_denom_pos)
  have x: "x = of_int p / of_int q" using pq by (rule quotient_of_div)
  have p: "0 < p"
    using assms q unfolding x by (simp add: zero_less_divide_iff)
  define a where "a = bitlen p"
  define b where "b = bitlen q"
  have a1: "1 \<le> a" using p by (simp add: a_def bitlen_alt_def)
  have b1: "1 \<le> b" using q by (simp add: b_def bitlen_alt_def)
  from bitlen_bounds [OF p] have pb: "2 ^ nat (a - 1) \<le> p" "p < 2 ^ nat a"
    by (simp_all add: a_def)
  from bitlen_bounds [OF q] have qb: "2 ^ nat (b - 1) \<le> q" "q < 2 ^ nat b"
    by (simp_all add: b_def)
  have pr: "pow2 (a - 1) \<le> of_int p" "of_int p < pow2 a"
  proof -
    have "(of_int (2 ^ nat (a - 1)) :: rat) \<le> of_int p"
      using pb(1) by (simp only: of_int_le_iff)
    then show "pow2 (a - 1) \<le> of_int p"
      using a1 by (simp add: pow2_def)
    have "(of_int p :: rat) < of_int (2 ^ nat a)"
      using pb(2) by (simp only: of_int_less_iff)
    then show "of_int p < pow2 a"
      using a1 by (simp add: pow2_def)
  qed
  have qr: "pow2 (b - 1) \<le> of_int q" "of_int q < pow2 b"
  proof -
    have "(of_int (2 ^ nat (b - 1)) :: rat) \<le> of_int q"
      using qb(1) by (simp only: of_int_le_iff)
    then show "pow2 (b - 1) \<le> of_int q"
      using b1 by (simp add: pow2_def)
    have "(of_int q :: rat) < of_int (2 ^ nat b)"
      using qb(2) by (simp only: of_int_less_iff)
    then show "of_int q < pow2 b"
      using b1 by (simp add: pow2_def)
  qed
  have qpos: "(0::rat) < of_int q" using q by simp
  have lo: "pow2 (a - b - 1) \<le> x"
  proof -
    have "pow2 (a - b - 1) * of_int q \<le> pow2 (a - b - 1) * pow2 b"
      using qr(2) pow2_pos [of "a - b - 1"] by (simp add: less_imp_le)
    also have "\<dots> = pow2 (a - 1)"
      by (simp flip: pow2_add)
    also have "\<dots> \<le> of_int p" by (rule pr(1))
    finally show ?thesis
      unfolding x using qpos by (simp add: pos_le_divide_eq)
  qed
  have hi: "x < pow2 (a - b + 1)"
  proof -
    have "of_int p < pow2 a" by (rule pr(2))
    also have "\<dots> = pow2 (a - b + 1) * pow2 (b - 1)"
      by (simp flip: pow2_add)
    also have "\<dots> \<le> pow2 (a - b + 1) * of_int q"
      using qr(1) pow2_pos [of "a - b + 1"] by simp
    finally show ?thesis
      unfolding x using qpos by (simp add: pos_divide_less_eq)
  qed
  have f: "flog2 x = (if pow2 (a - b) \<le> x then a - b else a - b - 1)"
    by (simp add: flog2_def pq a_def b_def Let_def)
  show ?thesis
  proof (cases "pow2 (a - b) \<le> x")
    case True
    then show ?thesis using hi f by simp
  next
    case False
    then show ?thesis using lo f by simp
  qed
qed

lemma flog2_unique:
  assumes "0 < x" and "pow2 d \<le> x" and "x < pow2 (d + 1)"
  shows "flog2 x = d"
proof -
  note b = flog2_bounds [OF assms(1)]
  have "pow2 d < pow2 (flog2 x + 1)" using assms(2) b by simp
  then have 1: "d < flog2 x + 1" by (simp only: pow2_less_iff)
  have "pow2 (flog2 x) < pow2 (d + 1)" using assms(3) b by simp
  then have 2: "flog2 x < d + 1" by (simp only: pow2_less_iff)
  show ?thesis using 1 2 by simp
qed

text \<open>Rounding a positive rational whose binary exponent \<open>d\<close> is known.\<close>

lemma round_double_pos:
  assumes "0 < x" and "pow2 d \<le> x" and "x < pow2 (d + 1)"
  shows "round_double x =
     (let e = max (d - 52) (- 1074);
          y = of_int (round_half_even (x / pow2 e)) * pow2 e
      in if pow2 1024 \<le> y then PInf else Fin y)"
  using assms by (simp add: round_double_def flog2_unique [OF assms] Let_def)

section \<open>Representable numbers\<close>

lemma round_half_even_int: "round_half_even (of_int k) = k"
  by (simp add: round_half_even_def)

text \<open>Every \<open>m \<cdot> 2\<^sup>k\<close> with \<open>0 < m < 2\<^sup>5\<^sup>3\<close> and \<open>-1074 \<le> k \<le> 971\<close> is a float.\<close>

lemma representable_scaled:
  assumes "0 < m" and "m < 2 ^ 53" and "- 1074 \<le> k" and "k \<le> 971"
  shows "representable (of_int m * pow2 k)"
proof -
  define x where "x = of_int m * pow2 k"
  define d where "d = bitlen m - 1 + k"
  have b1: "1 \<le> bitlen m" using assms(1) by (simp add: bitlen_alt_def)
  from bitlen_bounds [OF assms(1)]
  have mb: "2 ^ nat (bitlen m - 1) \<le> m" "m < 2 ^ nat (bitlen m)"
    by simp_all
  have "(2::int) ^ nat (bitlen m - 1) < 2 ^ 53"
    using mb(1) assms(2) by simp
  then have "nat (bitlen m - 1) < 53"
    by (simp only: power_strict_increasing_iff [of 2] one_less_numeral_iff semiring_norm)
  then have b53: "bitlen m \<le> 53" by simp
  have mr: "pow2 (bitlen m - 1) \<le> of_int m" "of_int m < pow2 (bitlen m)"
  proof -
    have "(of_int (2 ^ nat (bitlen m - 1)) :: rat) \<le> of_int m"
      using mb(1) by (simp only: of_int_le_iff)
    then show "pow2 (bitlen m - 1) \<le> of_int m"
      using b1 by (simp add: pow2_def)
    have "(of_int m :: rat) < of_int (2 ^ nat (bitlen m))"
      using mb(2) by (simp only: of_int_less_iff)
    then show "of_int m < pow2 (bitlen m)"
      using b1 by (simp add: pow2_def)
  qed
  have xpos: "0 < x"
    using assms(1) pow2_pos [of k] by (simp add: x_def)
  have lo: "pow2 d \<le> x"
    using mr(1) pow2_pos [of k] by (simp add: d_def x_def pow2_add)
  have hi: "x < pow2 (d + 1)"
  proof -
    have "x < pow2 (bitlen m) * pow2 k"
      using mr(2) pow2_pos [of k] by (simp add: x_def)
    also have "\<dots> = pow2 (d + 1)"
      by (simp add: d_def flip: pow2_add)
    finally show ?thesis .
  qed
  define e where "e = max (d - 52) (- 1074)"
  have ek: "e \<le> k"
    using b53 assms(3) by (simp add: e_def d_def)
  have split: "pow2 k = pow2 (k - e) * pow2 e"
    by (simp flip: pow2_add)
  have pk: "pow2 (k - e) = of_int (2 ^ nat (k - e))"
    using ek by (simp add: pow2_def)
  have pe: "pow2 e \<noteq> 0" using pow2_pos [of e] by simp
  have quot: "x / pow2 e = of_int (m * 2 ^ nat (k - e))"
    using pe by (simp add: x_def split pk)
  have y: "of_int (round_half_even (x / pow2 e)) * pow2 e = x"
    unfolding quot round_half_even_int
    using pe by (simp add: x_def split pk)
  have small: "x < pow2 1024"
  proof -
    have "of_int m < pow2 53"
    proof -
      have "(of_int m :: rat) < of_int (2 ^ 53)"
        using assms(2) by (simp only: of_int_less_iff)
      then show ?thesis by (simp add: pow2_def)
    qed
    then have "x < pow2 53 * pow2 k"
      using pow2_pos [of k] by (simp add: x_def)
    also have "\<dots> = pow2 (53 + k)" by (simp add: pow2_add)
    also have "\<dots> \<le> pow2 1024"
      using assms(4) by (intro pow2_le) simp
    finally show ?thesis .
  qed
  have "round_double x = Fin x"
    using small y
    by (simp add: round_double_pos [OF xpos lo hi] Let_def flip: e_def)
  then show ?thesis
    by (simp add: representable_def x_def)
qed

lemma representable_int:
  assumes "0 < n" and "n < 2 ^ 53"
  shows "representable (of_int n)"
  using representable_scaled [OF assms, of 0] by (simp add: pow2_def)

section \<open>Properties of the synthetic clock's frame rate and of the game time\<close>

lemma to_float_int:
  assumes "0 < i" and "i < 2 ^ 53"
  shows "to_float (PyInt i) = Inr (Fin (of_int i))"
  using representable_int [OF assms] by (simp add: representable_def)

lemma rd_hundredth: "round_double (1 / 100) = Fin (5764607523034235 / 576460752303423488)"
  by (subst round_double_pos [where d = "-7"])
    (simp_all add: pow2_def round_half_even_def Let_def floor_numeral_div_rat)

lemma rd10: "round_double 10 = Fin 10"
  using representable_int [of 10] by (simp add: representable_def)

lemma rd60: "round_double 60 = Fin 60"
  using representable_int [of 60] by (simp add: representable_def)

lemma rd100: "round_double 100 = Fin 100"
  using representable_int [of 100] by (simp add: representable_def)

lemma ms_player0: "get_ms_per_frame player0 = Inr (Fin 100)"
  by (simp add: get_ms_per_frame_def player0_def init_def float_truediv_def rd10 rd100)

text \<open>
  Claim C6 says that \<^verbatim>\<open>get_fps()\<close> returns \<open>\<lfloor>1000 / interval\<rfloor>\<close> for the interval
  \<open>1000 / desired_fps\<close> in milliseconds, which is 10 at 10 frames per second. The code
  divides \<^verbatim>\<open>1.0\<close>, not \<^verbatim>\<open>1000.0\<close>, by the interval in milliseconds: at 10 frames
  per second the interval is 100 ms and \<^verbatim>\<open>get_fps()\<close> returns \<open>int(0.01) = 0\<close>.
\<close>

theorem clock_get_fps_wrong:
  "desired_fps player0 = PyInt 10 \<and>
   tick (on_time_clock player0) player0 = Inr (Fin 100) \<and>
   get_fps (on_time_clock player0) player0 = Inr 0"
  by (simp add: get_fps_def tick_def on_time_clock_def FixedFPSClock_def ms_player0 rd_hundredth
      floor_numeral_div_rat)
    (simp add: player0_def init_def)

lemma rd_ms60: "round_double (50 / 3) = Fin (4691249611844267 / 281474976710656)"
  by (subst round_double_pos [where d = "4"])
    (simp_all add: pow2_def round_half_even_def Let_def floor_numeral_div_rat)

lemma ms_player60: "get_ms_per_frame player60 = Inr (Fin (4691249611844267 / 281474976710656))"
  by (simp add: get_ms_per_frame_def player60_def init_def float_truediv_def rd60 rd_ms60)

lemma add60_1: "float_add (Fin 0) (Fin (4691249611844267 / 281474976710656)) = Fin (4691249611844267 / 281474976710656)"
  unfolding float_add.simps
  by (subst round_double_pos [where d = "4"])
    (simp_all add: pow2_def round_half_even_def Let_def floor_numeral_div_rat)

lemma add60_2: "float_add (Fin (4691249611844267 / 281474976710656)) (Fin (4691249611844267 / 281474976710656)) = Fin (4691249611844267 / 140737488355328)"
  unfolding float_add.simps
  by (subst round_double_pos [where d = "5"])
    (simp_all add: pow2_def round_half_even_def Let_def floor_numeral_div_rat)

lemma add60_3: "float_add (Fin (4691249611844267 / 140737488355328)) (Fin (4691249611844267 / 281474976710656)) = Fin 50"
  unfolding float_add.simps
  by (subst round_double_pos [where d = "5"])
    (simp_all add: pow2_def round_half_even_def Let_def floor_numeral_div_rat)

lemma add60_4: "float_add (Fin 50) (Fin (4691249611844267 / 281474976710656)) = Fin (4691249611844267 / 70368744177664)"
  unfolding float_add.simps
  by (subst round_double_pos [where d = "6"])
    (simp_all add: pow2_def round_half_even_def Let_def floor_numeral_div_rat)

lemma add60_5: "float_add (Fin (4691249611844267 / 70368744177664)) (Fin (4691249611844267 / 281474976710656))
    = Fin (2932031007402667 / 35184372088832)"
  unfolding float_add.simps
  by (subst round_double_pos [where d = "6"])
    (simp_all add: pow2_def round_half_even_def Let_def floor_numeral_div_rat)

lemma rd_5000_60: "round_double (5 * 1000 / 60) = Fin (5864062014805333 / 70368744177664)"
  by (subst round_double_pos [where d = "6"])
    (simp_all add: pow2_def round_half_even_def Let_def floor_numeral_div_rat)

lemma frame_idle:
  assumes "get_ms_per_frame s = Inr ms"
  shows "on_screen_update idle_agent (Inr ()) s
     = (Inr (), s\<lparr>last_keys_pressed := keys_pressed s, keys_pressed := [],
                  game_time := float_add (game_time s) ms\<rparr>)"
  using assms
  by (simp add: on_screen_update_def idle_agent_def get_ms_per_frame_def Let_def)

lemma ms_update:
  "get_ms_per_frame (s\<lparr>last_keys_pressed := a, keys_pressed := b, game_time := t\<rparr>)
     = get_ms_per_frame s"
  by (simp add: get_ms_per_frame_def)

lemma frames60:
  "game_time (snd (run_frames idle_agent [Inr (), Inr (), Inr (), Inr (), Inr ()] player60))
     = Fin (2932031007402667 / 35184372088832)"
proof -
  have g0: "game_time player60 = Fin 0" by (simp add: player60_def init_def)
  show ?thesis
    by (simp add: frame_idle ms_update ms_player60 g0 add60_1 add60_2 add60_3 add60_4 add60_5
        del: float_add.simps)
qed

text \<open>
  Claim C4 says that after \<open>N\<close> frames at \<open>F\<close> frames per second the game time is
  \<open>N * 1000 / F\<close> exactly. The game time is a float to which the rounded interval is
  added with rounding at each frame. At 60 frames per second, after 5 frames, it is
  \<open>83.33333333333334\<close>: neither the rational \<open>5000 / 60\<close> nor the float nearest to
  it, \<open>83.33333333333333\<close>.
\<close>

theorem game_time_drifts:
  "desired_fps player60 = PyInt 60 \<and> game_time player60 = Fin 0 \<and>
   fst (run_frames idle_agent [Inr (), Inr (), Inr (), Inr (), Inr ()] player60) = Inr () \<and>
   game_time (snd (run_frames idle_agent [Inr (), Inr (), Inr (), Inr (), Inr ()] player60))
     = Fin (2932031007402667 / 35184372088832) \<and>
   game_time (snd (run_frames idle_agent [Inr (), Inr (), Inr (), Inr (), Inr ()] player60))
     \<noteq> Fin (5 * 1000 / 60) \<and>
   game_time (snd (run_frames idle_agent [Inr (), Inr (), Inr (), Inr (), Inr ()] player60))
     \<noteq> round_double (5 * 1000 / 60)"
proof -
  have 1: "desired_fps player60 = PyInt 60 \<and> game_time player60 = Fin 0"
    by (simp add: player60_def init_def)
  have 2: "fst (run_frames idle_agent [Inr (), Inr (), Inr (), Inr (), Inr ()] player60) = Inr ()"
    by (simp add: frame_idle ms_update ms_player60)
  show ?thesis
    unfolding frames60 rd_5000_60 using 1 2 by simp
qed

lemma frame_ok:
  assumes "agent_returns ag" and "get_ms_per_frame s = Inr ms"
  shows "\<exists>keys. on_screen_update ag (Inr fr) s
     = (Inr (), s\<lparr>last_keys_pressed := keys_pressed s, keys_pressed := keys,
                  game_time := float_add (game_time s) ms\<rparr>)"
proof -
  have "\<not> isl (get_feedback ag s)"
    using assms(1) by (simp add: agent_returns_def)
  then obtain reward where r: "get_feedback ag s = Inr reward"
    by (cases "get_feedback ag s") simp_all
  have "\<not> isl (get_keys_pressed ag s fr reward)"
    using assms(1) by (simp add: agent_returns_def)
  then obtain keys where k: "get_keys_pressed ag s fr reward = Inr keys"
    by (cases "get_keys_pressed ag s fr reward") simp_all
  have "on_screen_update ag (Inr fr) s
     = (Inr (), s\<lparr>last_keys_pressed := keys_pressed s, keys_pressed := keys,
                  game_time := float_add (game_time s) ms\<rparr>)"
    using assms(2) by (simp add: on_screen_update_def r k get_ms_per_frame_def Let_def)
  then show ?thesis ..
qed

lemma frames_accumulate:
  assumes "agent_returns ag"
      and "get_ms_per_frame s = Inr (Fin m)"
      and "\<forall>x \<in> set surfaces. \<not> isl x"
      and "game_time s = Fin (of_nat j * m)"
      and "\<forall>k. j < k \<and> k \<le> j + length surfaces \<longrightarrow> representable (of_nat k * m)"
  shows "\<exists>s'. run_frames ag surfaces s = (Inr (), s') \<and>
           game_time s' = Fin (of_nat (j + length surfaces) * m)"
  using assms(2-)
proof (induction surfaces arbitrary: s j)
  case Nil
  then show ?case by simp
next
  case (Cons x surfaces)
  obtain fr where x: "x = Inr fr"
    using Cons.prems(2) by (cases x) auto
  obtain keys where step: "on_screen_update ag x s
     = (Inr (), s\<lparr>last_keys_pressed := keys_pressed s, keys_pressed := keys,
                  game_time := float_add (game_time s) (Fin m)\<rparr>)"
    using frame_ok [OF assms(1) Cons.prems(1)] x by blast
  define s1 where "s1 = s\<lparr>last_keys_pressed := keys_pressed s, keys_pressed := keys,
                  game_time := float_add (game_time s) (Fin m)\<rparr>"
  have "j < Suc j \<and> Suc j \<le> j + length (x # surfaces)"
    by simp
  with Cons.prems(4) have "representable (of_nat (Suc j) * m)"
    by blast
  then have "round_double (of_nat j * m + m) = Fin (of_nat (Suc j) * m)"
    by (simp add: representable_def algebra_simps)
  then have g1: "game_time s1 = Fin (of_nat (Suc j) * m)"
    using Cons.prems(3) by (simp add: s1_def)
  have m1: "get_ms_per_frame s1 = Inr (Fin m)"
    using Cons.prems(1) by (simp add: s1_def get_ms_per_frame_def)
  have r1: "\<forall>x \<in> set surfaces. \<not> isl x"
    using Cons.prems(2) by simp
  have k1: "\<forall>k. Suc j < k \<and> k \<le> Suc j + length surfaces \<longrightarrow> representable (of_nat k * m)"
    using Cons.prems(4) by simp
  from Cons.IH [OF m1 r1 g1 k1]
  obtain s' where "run_frames ag surfaces s1 = (Inr (), s')"
    and "game_time s' = Fin (of_nat (Suc j + length surfaces) * m)"
    by blast
  then show ?case
    using step by (simp add: s1_def)
qed

text \<open>
  Claim C4, amended. Let the frame rate have the positive finite float value \<open>f\<close>, the
  game time be \<open>0.0\<close>, the callbacks and the display reads return, and every multiple
  \<open>k * 1000 / f\<close> for \<open>1 \<le> k \<le> N\<close> be representable as a float. Then \<open>N\<close> frame
  handler invocations succeed and leave the game time at \<open>N * 1000 / f\<close> exactly.
  \<^verbatim>\<open>start()\<close> and \<^verbatim>\<open>stop()\<close> do not change the game time.
\<close>

theorem game_time_after_frames:
  assumes "to_float (desired_fps s) = Inr (Fin f)" and "0 < f"
      and "game_time s = Fin 0"
      and "agent_returns ag"
      and "\<forall>x \<in> set surfaces. \<not> isl x"
      and "\<forall>k. 1 \<le> k \<and> k \<le> length surfaces \<longrightarrow> representable (of_nat k * (1000 / f))"
  shows "(\<exists>s'. run_frames ag surfaces s = (Inr (), s') \<and>
            game_time s' = Fin (of_nat (length surfaces) * 1000 / f)) \<and>
         game_time (fst (snd (start (s, pg)))) = game_time s \<and>
         game_time (fst (snd (stop (s, pg)))) = game_time s"
proof -
  have frames: "\<exists>s'. run_frames ag surfaces s = (Inr (), s') \<and>
            game_time s' = Fin (of_nat (length surfaces) * 1000 / f)"
  proof (cases surfaces)
    case Nil
    then show ?thesis using assms(3) by simp
  next
    case (Cons x xs)
    then have "1 \<le> (1::nat) \<and> 1 \<le> length surfaces"
      by simp
    with assms(6) have "representable (of_nat 1 * (1000 / f))"
      by blast
    then have "round_double (1000 / f) = Fin (1000 / f)"
      by (simp add: representable_def)
    then have ms: "get_ms_per_frame s = Inr (Fin (1000 / f))"
      using assms(1,2) by (simp add: get_ms_per_frame_def float_truediv_def)
    have g: "game_time s = Fin (of_nat 0 * (1000 / f))"
      using assms(3) by simp
    have k: "\<forall>k. 0 < k \<and> k \<le> 0 + length surfaces \<longrightarrow> representable (of_nat k * (1000 / f))"
      using assms(6) by (simp add: Suc_le_eq)
    from frames_accumulate [OF assms(4) ms assms(5) g k]
    show ?thesis by simp
  qed
  have lifecycle: "game_time (fst (snd (start (s, pg)))) = game_time s"
      "game_time (fst (snd (stop (s, pg)))) = game_time s"
    by (simp_all add: start_def stop_def Let_def)
  show ?thesis using frames lifecycle by simp
qed

theorem game_time_after_frames_witness:
  "to_float (desired_fps player0) = Inr (Fin 10) \<and> (0::rat) < 10 \<and>
   game_time player0 = Fin 0 \<and> agent_returns idle_agent \<and>
   representable 100 \<and> representable 200 \<and> representable 300 \<and>
   fst (run_frames idle_agent [Inr (), Inr (), Inr ()] player0) = Inr () \<and>
   game_time (snd (run_frames idle_agent [Inr (), Inr (), Inr ()] player0)) = Fin 300"
proof -
  have 1: "to_float (desired_fps player0) = Inr (Fin 10)"
    by (simp add: player0_def init_def rd10)
  have 2: "(0::rat) < 10" by simp
  have 3: "game_time player0 = Fin 0"
    by (simp add: player0_def init_def)
  have 4: "agent_returns idle_agent"
    by (simp add: agent_returns_def idle_agent_def)
  have 5: "\<forall>x \<in> set [Inr (), Inr (), Inr () :: error + unit]. \<not> isl x"
    by simp
  have 6: "\<forall>k. 1 \<le> k \<and> k \<le> length [Inr (), Inr (), Inr () :: error + unit]
             \<longrightarrow> representable (of_nat k * (1000 / 10))"
  proof (intro allI impI)
    fix k :: nat
    assume "1 \<le> k \<and> k \<le> length [Inr (), Inr (), Inr () :: error + unit]"
    then have "0 < int k * 100" "int k * 100 < 2 ^ 53" by simp_all
    from representable_int [OF this] show "representable (of_nat k * (1000 / 10))"
      by simp
  qed
  have 7: "representable 100 \<and> representable 200 \<and> representable 300"
    using representable_int [of 100] representable_int [of 200] representable_int [of 300]
    by simp
  from game_time_after_frames [OF 1 2 3 4 5 6, of pg0]
  obtain s' where r: "run_frames idle_agent [Inr (), Inr (), Inr ()] player0 = (Inr (), s')"
    and g: "game_time s' = Fin (of_nat (length [Inr (), Inr (), Inr () :: error + unit]) * 1000 / 10)"
    by blast
  have 8: "fst (run_frames idle_agent [Inr (), Inr (), Inr ()] player0) = Inr ()"
    by (simp only: r fst_conv)
  have 9: "game_time (snd (run_frames idle_agent [Inr (), Inr (), Inr ()] player0)) = Fin 300"
    using g by (simp only: r snd_conv) simp
  show ?thesis
    using 1 2 3 4 7 8 9 by blast
qed

end
